theory Spec2Isabelle
  imports Main "HOL-Library.Sublist" "HOL-Library.Multiset" "HOL-Library.AList"
    "HOL-Library.Char_ord" "HOL-Library.List_Lexorder"
begin

section \<open>Storage abstraction (doctor/filesystem.go)\<close>

subsection \<open>Errors\<close>

text \<open>
  An operation of the \<^verbatim>\<open>FileSystem\<close> interface returns a Go \<^verbatim>\<open>error\<close>
  (\<^verbatim>\<open>nil\<close> on success) or panics.  \<open>Errorf m\<close> is the error built by
  \<^verbatim>\<open>fmt.Errorf\<close> with the formatted message \<open>m\<close>; \<open>PathError op p\<close> is the
  error of a failed call of package \<^verbatim>\<open>os\<close>; \<open>Panic m\<close> is a run-time panic with
  message \<open>m\<close>, which leaves every enclosing function at once.
\<close>

datatype error = Errorf string | PathError string string | Panic string

subsection \<open>Bare file names\<close>

text \<open>
  \<^verbatim>\<open>path.Split\<close> cuts a path after its last slash:
  \<^verbatim>\<open>i := strings.LastIndex(path, "/"); return path[:i+1], path[i+1:]\<close>.
  \<^verbatim>\<open>filepath.Split\<close> is the same function where the separator is the slash
  and there are no volume names.
\<close>

definition path_Split :: "string \<Rightarrow> string \<times> string" where
  "path_Split p =
     (let file = rev (takeWhile (\<lambda>c. c \<noteq> CHR ''/'') (rev p))
      in (take (length p - length file) p, file))"

definition filepath_Split :: "string \<Rightarrow> string \<times> string" where
  "filepath_Split p = path_Split p"

definition isBareFilename :: "string \<Rightarrow> bool" where
  "isBareFilename filePath = (let (dir, _) = path_Split filePath in dir = '''')"

subsection \<open>The host: files on disk and the environment\<close>

text \<open>
  The part of the host that \<^verbatim>\<open>os.Open\<close> and \<^verbatim>\<open>os.Getenv\<close> read: the bytes
  of every regular file, by path, and the value of \<^verbatim>\<open>GOROOT\<close>.  Opening a file
  that is absent fails with a path error; opening never writes.
\<close>

record Host =
  disk :: "string \<rightharpoonup> string"
  GOROOT :: string

definition os_Open :: "string \<Rightarrow> Host \<Rightarrow> (error + string) \<times> Host" where
  "os_Open path h =
     (case disk h path of
        None \<Rightarrow> (Inl (PathError ''open'' path), h)
      | Some bytes \<Rightarrow> (Inr bytes, h))"

subsection \<open>The interface and the deferred changes\<close>

text \<open>
  A value of interface type \<^verbatim>\<open>FileSystem\<close> is its method table.  The state \<open>'s\<close> is
  whatever the receiver's methods read and write.  Only the three mutating methods are
  listed: they are the ones a \<^verbatim>\<open>FileSystemChange\<close> calls.
\<close>

record 's FileSystem =
  CreateFile :: "string \<Rightarrow> string \<Rightarrow> 's \<Rightarrow> error option \<times> 's"
  Rename :: "string \<Rightarrow> string \<Rightarrow> 's \<Rightarrow> error option \<times> 's"
  Remove :: "string \<Rightarrow> 's \<Rightarrow> error option \<times> 's"

datatype FileSystemChange =
    fsCreateFile string string
  | fsRemove string
  | fsRename string string

fun ExecuteUsing :: "FileSystemChange \<Rightarrow> 's FileSystem \<Rightarrow> 's \<Rightarrow> error option \<times> 's" where
  "ExecuteUsing (fsCreateFile path contents) fs s = CreateFile fs path contents s"
| "ExecuteUsing (fsRemove path) fs s = Remove fs path s"
| "ExecuteUsing (fsRename path newName) fs s = Rename fs path newName s"

fun Execute :: "'s FileSystem \<Rightarrow> FileSystemChange list \<Rightarrow> 's \<Rightarrow> error option \<times> 's" where
  "Execute fs [] s = (None, s)"
| "Execute fs (chg # changes) s =
     (case ExecuteUsing chg fs s of
        (Some err, s') \<Rightarrow> (Some err, s')
      | (None, s') \<Rightarrow> Execute fs changes s')"

subsection \<open>Virtual file system\<close>

record VirtualFileSystem =
  files :: "string \<rightharpoonup> string"

definition NewVirtualFileSystem :: VirtualFileSystem where
  "NewVirtualFileSystem = \<lparr>files = Map.empty\<rparr>"

definition isInGoRoot :: "string \<Rightarrow> Host \<Rightarrow> bool" where
  "isInGoRoot path h = prefix (GOROOT h) path"

definition VirtualFileSystem_OpenFile ::
  "string \<Rightarrow> Host \<Rightarrow> VirtualFileSystem \<Rightarrow> (error + string) \<times> Host" where
  "VirtualFileSystem_OpenFile path h fs =
     (if isInGoRoot path h then os_Open path h
      else
        (let (_, fname) = filepath_Split path in
         case files fs fname of
           None \<Rightarrow> (Inl (Errorf (''Virtual file not found: '' @ fname)), h)
         | Some contents \<Rightarrow> (Inr contents, h)))"

definition VirtualFileSystem_CreateFile ::
  "string \<Rightarrow> string \<Rightarrow> VirtualFileSystem \<Rightarrow> error option \<times> VirtualFileSystem" where
  "VirtualFileSystem_CreateFile path contents fs =
     (if files fs path \<noteq> None then (Some (Errorf (''File already exists: '' @ path)), fs)
      else (None, fs\<lparr>files := (files fs)(path \<mapsto> contents)\<rparr>))"

definition VirtualFileSystem_Rename ::
  "string \<Rightarrow> string \<Rightarrow> VirtualFileSystem \<Rightarrow> error option \<times> VirtualFileSystem" where
  "VirtualFileSystem_Rename path newName fs =
     (case files fs path of
        None \<Rightarrow> (Some (Errorf (''File does not exist: '' @ path)), fs)
      | Some contents \<Rightarrow>
          if files fs newName \<noteq> None
          then (Some (Errorf (''File already exists: '' @ newName)), fs)
          else (None, fs\<lparr>files := ((files fs)(newName \<mapsto> contents))(path := None)\<rparr>))"

definition VirtualFileSystem_Remove ::
  "string \<Rightarrow> VirtualFileSystem \<Rightarrow> error option \<times> VirtualFileSystem" where
  "VirtualFileSystem_Remove path fs =
     (if files fs path = None then (Some (Errorf (''File does not exist: '' @ path)), fs)
      else (None, fs\<lparr>files := (files fs)(path := None)\<rparr>))"

definition VirtualBackend :: "VirtualFileSystem FileSystem" where
  "VirtualBackend =
     \<lparr>CreateFile = VirtualFileSystem_CreateFile,
      Rename = VirtualFileSystem_Rename,
      Remove = VirtualFileSystem_Remove\<rparr>"

subsection \<open>Local file system\<close>

definition LocalFileSystem_OpenFile :: "string \<Rightarrow> Host \<Rightarrow> (error + string) \<times> Host" where
  "LocalFileSystem_OpenFile path h =
     (case os_Open path h of
        (Inl err, h') \<Rightarrow> (Inl err, h')
      | (Inr f, h') \<Rightarrow> (Inr f, h'))"

text \<open>
  \<^verbatim>\<open>os.Rename\<close>, \<^verbatim>\<open>path.Dir\<close> and \<^verbatim>\<open>path.Join\<close> belong to the Go library; they
  are parameters of the model.  The guard on \<open>newName\<close> is the repository's own.
\<close>

definition LocalFileSystem_Rename ::
  "(string \<Rightarrow> string \<Rightarrow> 'h \<Rightarrow> error option \<times> 'h) \<Rightarrow> (string \<Rightarrow> string) \<Rightarrow>
   (string \<Rightarrow> string \<Rightarrow> string) \<Rightarrow> string \<Rightarrow> string \<Rightarrow> 'h \<Rightarrow> error option \<times> 'h" where
  "LocalFileSystem_Rename os_Rename path_Dir path_Join oldPath newName h =
     (if \<not> isBareFilename newName
      then (Some (Errorf (''newName must be a bare filename: '' @ newName)), h)
      else (let newPath = path_Join (path_Dir oldPath) newName
            in os_Rename oldPath newPath h))"

subsection \<open>Edited file system\<close>

text \<open>
  The overlay embeds the local file system and adds a table of pending edit sets.
  \<^verbatim>\<open>EditSet\<close> and \<^verbatim>\<open>ApplyToReader\<close> are defined elsewhere in the package; the type of
  edit sets is the parameter \<open>'e\<close> and \<^verbatim>\<open>ApplyToReader\<close> is a parameter of
  \<open>OpenFile\<close>, from an edit set and the bytes of the reader to the edited bytes or
  an error.  An open file is modelled by the bytes it yields.
\<close>

record 'e EditedFileSystem =
  Edits :: "string \<rightharpoonup> 'e"

definition EditedFileSystem_OpenFile ::
  "('e \<Rightarrow> string \<Rightarrow> error + string) \<Rightarrow> string \<Rightarrow> Host \<Rightarrow> 'e EditedFileSystem \<Rightarrow>
   (error + string) \<times> Host" where
  "EditedFileSystem_OpenFile ApplyToReader path h fs =
     (let (localReader, h') = LocalFileSystem_OpenFile path h
      in case (localReader, Edits fs path) of
           (Inl err, _) \<Rightarrow> (Inl err, h')
         | (Inr bytes, None) \<Rightarrow> (Inr bytes, h')
         | (Inr bytes, Some editSet) \<Rightarrow>
             (case ApplyToReader editSet bytes of
                Inl err \<Rightarrow> (Inl err, h')
              | Inr contents \<Rightarrow> (Inr contents, h')))"

definition EditedFileSystem_CreateFile ::
  "string \<Rightarrow> string \<Rightarrow> 's \<Rightarrow> error option \<times> 's" where
  "EditedFileSystem_CreateFile path contents s = (Some (Panic ''CreateFile unsupported''), s)"

definition EditedFileSystem_Rename ::
  "string \<Rightarrow> string \<Rightarrow> 's \<Rightarrow> error option \<times> 's" where
  "EditedFileSystem_Rename path newName s = (Some (Panic ''Rename unsupported''), s)"

definition EditedFileSystem_Remove :: "string \<Rightarrow> 's \<Rightarrow> error option \<times> 's" where
  "EditedFileSystem_Remove path s = (Some (Panic ''Remove unsupported''), s)"

definition EditedBackend :: "'s FileSystem" where
  "EditedBackend =
     \<lparr>CreateFile = EditedFileSystem_CreateFile,
      Rename = EditedFileSystem_Rename,
      Remove = EditedFileSystem_Remove\<rparr>"

section \<open>The Fix Imports transformation (doctor/fiximports.go)\<close>

subsection \<open>Syntax trees\<close>

text \<open>
  The part of \<^verbatim>\<open>go/ast\<close> that the transformation looks at.  A position
  (\<^verbatim>\<open>token.Pos\<close>) is a natural number, \<open>0\<close> being \<^verbatim>\<open>token.NoPos\<close>.  An identifier
  node is told apart from another of the same name by its position.

  \<open>IdentNode\<close> is \<^verbatim>\<open>*ast.Ident\<close>; \<open>SelectorExpr x sel\<close> is \<^verbatim>\<open>*ast.SelectorExpr\<close>
  with operand \<open>X = x\<close> and selector \<open>Sel = sel\<close>; \<open>GenDecl tok p e specs\<close> is
  \<^verbatim>\<open>*ast.GenDecl\<close> with keyword \<open>Tok = tok\<close>, \<open>Pos() = p\<close>, \<open>End() = e\<close> and the
  specifications \<open>specs\<close>; \<open>OtherNode p ns\<close> is a node of any other type, with
  \<open>Pos() = p\<close> and the children \<open>ns\<close> in the order \<^verbatim>\<open>ast.Walk\<close> visits them.
\<close>

datatype Ident = Ident (NamePos: nat) (Name: string)

datatype Token = IMPORT | CONST | TYPE | VAR

datatype Node =
    IdentNode Ident
  | SelectorExpr Node Ident
  | GenDecl Token nat nat "Node list"
  | OtherNode nat "Node list"

fun Pos :: "Node \<Rightarrow> nat" where
  "Pos (IdentNode ident) = NamePos ident"
| "Pos (SelectorExpr x sel) = Pos x"
| "Pos (GenDecl tok p e specs) = p"
| "Pos (OtherNode p ns) = p"

text \<open>
  An import specification: the local name, if one is written, and \<^verbatim>\<open>Path.Value\<close>,
  the path literal as it stands in the source, quotation marks included.
\<close>

datatype ImportSpec = ImportSpec (ImportName: "Ident option") (ImportPath: string)

record File =
  PackageName :: Ident
  Decls :: "Node list"
  Imports :: "ImportSpec list"
  Unresolved :: "Ident list"

text \<open>
  \<^verbatim>\<open>ast.Walk\<close> on a file visits the file node, then the package name, then the
  declarations.  None of the three visitors below matches the file node itself.
\<close>

definition fileNode :: "File \<Rightarrow> Node" where
  "fileNode f = OtherNode (NamePos (PackageName f)) (IdentNode (PackageName f) # Decls f)"

fun children :: "Node \<Rightarrow> Node list" where
  "children (IdentNode ident) = []"
| "children (SelectorExpr x sel) = [x, IdentNode sel]"
| "children (GenDecl tok p e specs) = specs"
| "children (OtherNode p ns) = ns"

text \<open>
  \<^verbatim>\<open>ast.Inspect(node, f)\<close>: depth first, \<open>f\<close> is called on a node before its
  children, and the children are visited only if \<open>f\<close> returns true.  The variables
  that the closure \<open>f\<close> assigns are the state \<open>'s\<close>.  After the children
  \<^verbatim>\<open>ast.Inspect\<close> calls \<open>f(nil)\<close>; the three closures of this file match on the
  type of the node and do nothing for \<^verbatim>\<open>nil\<close>, nor for a comment group, so both
  are left out.
\<close>

function Inspect :: "(Node \<Rightarrow> 's \<Rightarrow> bool \<times> 's) \<Rightarrow> Node \<Rightarrow> 's \<Rightarrow> 's" where
  "Inspect f n s =
     (case f n s of
        (True, s') \<Rightarrow> fold (Inspect f) (children n) s'
      | (False, s') \<Rightarrow> s')"
  by pat_completeness auto
termination
proof (relation "measure (\<lambda>(f, n, s). size n)")
  show "wf (measure (\<lambda>(f :: Node \<Rightarrow> 's \<Rightarrow> bool \<times> 's, n, s :: 's). size n))"
    by simp
next
  fix f :: "Node \<Rightarrow> 's \<Rightarrow> bool \<times> 's" and n :: Node and s :: 's
    and c :: Node and t :: 's
  assume "c \<in> set (children n)"
  then have "size c < size n"
  proof (cases n)
    case (GenDecl tok p e specs)
    assume "c \<in> set (children n)"
    with GenDecl have "c \<in> set specs" by simp
    then have "size c \<le> size_list size specs"
      by (induction specs) auto
    with GenDecl show ?thesis by simp
  next
    case (OtherNode p ns)
    assume "c \<in> set (children n)"
    with OtherNode have "c \<in> set ns" by simp
    then have "size c \<le> size_list size ns"
      by (induction ns) auto
    with OtherNode show ?thesis by simp
  qed auto
  then show "((f, c, t), (f, n, s)) \<in> measure (\<lambda>(f, n, s). size n)"
    by simp
qed

declare Inspect.simps [simp del]

subsection \<open>The transformation's surroundings\<close>

text \<open>
  \<open>Object\<close> is \<^verbatim>\<open>types.Object\<close>: a package name (\<^verbatim>\<open>*types.PkgName\<close>) or an object
  of another kind, each with its \<^verbatim>\<open>Name()\<close>.
\<close>

datatype Object = PkgName string | OtherObject string

datatype Severity = INFO | WARNING | ERROR | FATAL_ERROR

type_synonym Log = "(Severity \<times> string) list"

definition Log :: "Severity \<Rightarrow> string \<Rightarrow> Log \<Rightarrow> Log" where
  "Log severity message lg = lg @ [(severity, message)]"

datatype OffsetLength = OffsetLength (Offset: int) (Length: int)

text \<open>
  The fields of \<^verbatim>\<open>RefactoringBase\<close> that the transformation uses.  \<open>file'\<close> is
  the field \<^verbatim>\<open>file\<close>, \<open>None\<close> for a nil pointer.  \<open>ObjectOf\<close> is \<^verbatim>\<open>pkgInfo.ObjectOf\<close>, \<open>PositionOffset p\<close>
  is \<^verbatim>\<open>importer.Fset.Position(p).Offset\<close> and \<open>RemoveInitialErrors\<close> is the log's
  method of that name; the three are defined outside these sources and are
  parameters.  \<open>editSet\<close> holds the arguments of each call of \<^verbatim>\<open>editSet.Add\<close>.
\<close>

record FixImportsTransformation =
  file' :: "File option"
  filename :: string
  ObjectOf :: "Ident \<Rightarrow> Object option"
  PositionOffset :: "nat \<Rightarrow> int"
  RemoveInitialErrors :: "Log \<Rightarrow> Log"
  log :: Log
  editSet :: "(string \<times> OffsetLength \<times> string) list"

subsection \<open>Pruning dead imports\<close>

definition collectReferencedPackages ::
  "(Ident \<Rightarrow> Object option) \<Rightarrow> File \<Rightarrow> (string \<rightharpoonup> string)" where
  "collectReferencedPackages objectOf f =
     Inspect
       (\<lambda>n packagesReferenced.
          case n of
            IdentNode ident \<Rightarrow>
              (case objectOf ident of
                 Some (PkgName name) \<Rightarrow> (True, packagesReferenced(name \<mapsto> ''''))
               | _ \<Rightarrow> (True, packagesReferenced))
          | _ \<Rightarrow> (True, packagesReferenced))
       (fileNode f) Map.empty"

text \<open>
  The working set of imports is a Go map from path to name.  It is kept as an
  association list with one entry for each key; \<^verbatim>\<open>imports[path] = name\<close> is
  \<open>AList.update\<close>.
\<close>

definition findUsedImports ::
  "(Ident \<Rightarrow> Object option) \<Rightarrow> File \<Rightarrow> (string \<times> string) list" where
  "findUsedImports objectOf f =
     (let packagesReferenced = collectReferencedPackages objectOf f
      in fold
           (\<lambda>imprt imports.
              let path = ImportPath imprt;
                  name = (case ImportName imprt of None \<Rightarrow> '''' | Some ident \<Rightarrow> Name ident);
                  foundName = (packagesReferenced name \<noteq> None);
                  foundPkg = (packagesReferenced path \<noteq> None)
              in if foundName \<or> foundPkg then AList.update path name imports else imports)
           (Imports f) [])"

subsection \<open>Inferring missing imports\<close>

definition goLibraryPackages :: "string list" where
  "goLibraryPackages =
    [''archive'', ''archive/tar'', ''archive/zip'', ''bufio'', ''builtin'', ''bytes'',
     ''compress'', ''compress/bzip2'', ''compress/flate'', ''compress/gzip'',
     ''compress/lzw'', ''compress/zlib'', ''container'', ''container/heap'',
     ''container/list'', ''container/ring'', ''crypto'', ''crypto/aes'',
     ''crypto/cipher'', ''crypto/des'', ''crypto/dsa'', ''crypto/ecdsa'',
     ''crypto/elliptic'', ''crypto/hmac'', ''crypto/md5'', ''crypto/rand'',
     ''crypto/rc4'', ''crypto/rsa'', ''crypto/sha1'', ''crypto/sha256'',
     ''crypto/sha512'', ''crypto/subtle'', ''crypto/tls'', ''crypto/x509'',
     ''crypto/x509/pkix'', ''database'', ''database/sql'', ''database/sql/driver'',
     ''debug'', ''debug/dwarf'', ''debug/elf'', ''debug/gosym'', ''debug/macho'',
     ''debug/pe'', ''encoding'', ''encoding/ascii85'', ''encoding/asn1'',
     ''encoding/base32'', ''encoding/base64'', ''encoding/binary'', ''encoding/csv'',
     ''encoding/gob'', ''encoding/hex'', ''encoding/json'', ''encoding/pem'',
     ''encoding/xml'', ''errors'', ''expvar'', ''flag'', ''fmt'', ''go'', ''go/ast'',
     ''go/build'', ''go/doc'', ''go/format'', ''go/parser'', ''go/printer'',
     ''go/scanner'', ''go/token'', ''hash'', ''hash/adler32'', ''hash/crc32'',
     ''hash/crc64'', ''hash/fnv'', ''html'', ''html/template'', ''image'',
     ''image/color'', ''image/color/palette'', ''image/draw'', ''image/gif'',
     ''image/jpeg'', ''image/png'', ''index'', ''index/suffixarray'', ''io'',
     ''io/ioutil'', ''log'', ''log/syslog'', ''math'', ''math/big'', ''math/cmplx'',
     ''math/rand'', ''mime'', ''mime/multipart'', ''net'', ''net/http'',
     ''net/http/cgi'', ''net/http/cookiejar'', ''net/http/fcgi'',
     ''net/http/httptest'', ''net/http/httputil'', ''net/http/pprof'', ''net/mail'',
     ''net/rpc'', ''net/rpc/jsonrpc'', ''net/smtp'', ''net/textproto'', ''net/url'',
     ''os'', ''os/exec'', ''os/signal'', ''os/user'', ''path'', ''path/filepath'',
     ''reflect'', ''regexp'', ''regexp/syntax'', ''runtime'', ''runtime/cgo'',
     ''runtime/debug'', ''runtime/pprof'', ''runtime/race'', ''sort'', ''strconv'',
     ''strings'', ''sync'', ''sync/atomic'', ''syscall'', ''testing'',
     ''testing/iotest'', ''testing/quick'', ''text'', ''text/scanner'',
     ''text/tabwriter'', ''text/template'', ''text/template/parse'', ''time'',
     ''unicode'', ''unicode/utf16'', ''unicode/utf8'', ''unsafe'']"

text \<open>\<^verbatim>\<open>strings.Split(s, sep)\<close> for a separator of one byte.\<close>

fun strings_Split :: "string \<Rightarrow> char \<Rightarrow> string list" where
  "strings_Split [] sep = [[]]"
| "strings_Split (c # cs) sep =
     (if c = sep then [] # strings_Split cs sep
      else (case strings_Split cs sep of
              [] \<Rightarrow> [[c]]
            | w # ws \<Rightarrow> (c # w) # ws))"

definition isIdentInLHSOfSelectorExpr :: "File \<Rightarrow> Ident \<Rightarrow> bool" where
  "isIdentInLHSOfSelectorExpr f ident =
     Inspect
       (\<lambda>n result.
          case n of
            SelectorExpr x sel \<Rightarrow>
              (case x of
                 IdentNode _ \<Rightarrow> (False, True)
               | _ \<Rightarrow> (True, result))
          | _ \<Rightarrow> (True, result))
       (fileNode f) False"

definition resolveSelector :: "Ident \<Rightarrow> Log \<Rightarrow> string \<times> Log" where
  "resolveSelector ident lg =
     (let candidates =
            fold
              (\<lambda>pkg candidates.
                 let components = strings_Split pkg CHR ''/'';
                     last = components ! (length components - 1)
                 in if last = Name ident then candidates @ [pkg] else candidates)
              goLibraryPackages []
      in if length candidates = 1
         then ([CHR 0x22] @ candidates ! 0 @ [CHR 0x22], lg)
         else
           (let message =
                  fold (\<lambda>candidate message. message @ ''    '' @ candidate @ ''\<newline>'')
                    candidates
                    (''There are multiple packages named '' @ Name ident @ '':\<newline>'')
            in ('''', Log ERROR message lg)))"

definition resolve :: "File \<Rightarrow> Ident \<Rightarrow> Log \<Rightarrow> string \<times> Log" where
  "resolve f ident lg =
     (if isIdentInLHSOfSelectorExpr f ident then resolveSelector ident lg
      else ('''', Log ERROR (''Unable to resolve '' @ Name ident) lg))"

subsection \<open>Serialising the import block\<close>

text \<open>
  The argument lists the entries of the Go map \<open>importSet\<close>, path first, in the
  order in which the \<^verbatim>\<open>range\<close> loop happens to visit them.  \<^verbatim>\<open>sort.Strings\<close>
  sorts in increasing byte-wise lexicographic order, which is the order of
  \<open>string\<close> here.
\<close>

definition constructNewImportStatement :: "(string \<times> string) list \<Rightarrow> string" where
  "constructNewImportStatement importSet =
     (let imports =
            fold
              (\<lambda>(path, name) imports.
                 let thisImport = (if name = '''' then path else name @ '' '' @ path)
                 in imports @ [thisImport])
              importSet [];
          imports = sort imports;
          buffer = ''import (\<newline>'';
          buffer = fold (\<lambda>line buffer. buffer @ [CHR 0x09] @ line @ ''\<newline>'') imports buffer;
          buffer = buffer @ '')\<newline>''
      in buffer)"

subsection \<open>The replaced range\<close>

definition findFirstDeclOffset :: "(nat \<Rightarrow> int) \<Rightarrow> File \<Rightarrow> error + int" where
  "findFirstDeclOffset positionOffset f =
     (case Decls f of
        [] \<Rightarrow> Inl (Panic ''runtime error: index out of range'')
      | decl # _ \<Rightarrow> Inr (positionOffset (Pos decl)))"

definition findImportStatementRange :: "(nat \<Rightarrow> int) \<Rightarrow> File \<Rightarrow> OffsetLength" where
  "findImportStatementRange positionOffset f =
     (let (startPos, endPos) =
            Inspect
              (\<lambda>n (startPos, endPos).
                 case n of
                   GenDecl tok p e specs \<Rightarrow>
                     if tok = IMPORT
                     then (True, (if startPos = 0 then p else startPos), e)
                     else (True, startPos, endPos)
                 | _ \<Rightarrow> (True, startPos, endPos))
              (fileNode f) (0, 0);
          startOffset = positionOffset startPos;
          endOffset = positionOffset endPos;
          length = endOffset - startOffset + 1
      in OffsetLength startOffset length)"

definition findReplacementRange ::
  "(nat \<Rightarrow> int) \<Rightarrow> File \<Rightarrow> error + (OffsetLength \<times> string)" where
  "findReplacementRange positionOffset f =
     (if length (Imports f) = 0
      then (case findFirstDeclOffset positionOffset f of
              Inl err \<Rightarrow> Inl err
            | Inr offset \<Rightarrow> Inr (OffsetLength offset 0, ''\<newline>''))
      else Inr (findImportStatementRange positionOffset f, ''''))"

definition fixImports ::
  "(string \<times> string) list \<Rightarrow> File \<Rightarrow> FixImportsTransformation \<Rightarrow>
   error + FixImportsTransformation" where
  "fixImports imports f r =
     (case findReplacementRange (PositionOffset r) f of
        Inl err \<Rightarrow> Inl err
      | Inr (replaceRange, suffix') \<Rightarrow>
          (let replacement = constructNewImportStatement imports @ suffix'
           in Inr (r\<lparr>editSet := editSet r @ [(filename r, replaceRange, replacement)]\<rparr>)))"

subsection \<open>Run\<close>

definition Run :: "FixImportsTransformation \<Rightarrow> error + FixImportsTransformation" where
  "Run r =
     (case file' r of
        None \<Rightarrow> Inr (r\<lparr>log := Log FATAL_ERROR ''file cannot be null'' (log r)\<rparr>)
      | Some f \<Rightarrow>
          (let lg = RemoveInitialErrors r (log r);
               imports = findUsedImports (ObjectOf r) f;
               (imports, lg) =
                 fold
                   (\<lambda>ident (imports, lg).
                      let (resolved, lg) = resolve f ident lg
                      in if resolved \<noteq> ''''
                         then (AList.update resolved '''' imports, lg)
                         else (imports, lg))
                   (Unresolved f) (imports, lg)
           in fixImports imports f (r\<lparr>log := lg\<rparr>)))"

section \<open>Notions used in the statements\<close>

subsection \<open>Source order\<close>

text \<open>
  The nodes below \<open>n\<close>, \<open>n\<close> first, in the order of a full walk.  The import
  declarations of a file are the \<open>GenDecl\<close> nodes with keyword \<open>IMPORT\<close> in that
  order, each given by its \<open>Pos()\<close> and \<open>End()\<close>; the selector operands are the
  identifiers that stand as \<open>X\<close> of a \<open>SelectorExpr\<close>.
\<close>

fun preorder :: "Node \<Rightarrow> Node list" where
  "preorder (IdentNode ident) = [IdentNode ident]"
| "preorder (SelectorExpr x sel) = SelectorExpr x sel # preorder x @ [IdentNode sel]"
| "preorder (GenDecl tok p e specs) = GenDecl tok p e specs # concat (map preorder specs)"
| "preorder (OtherNode p ns) = OtherNode p ns # concat (map preorder ns)"

fun importSpan :: "Node \<Rightarrow> (nat \<times> nat) option" where
  "importSpan (GenDecl tok p e specs) = (if tok = IMPORT then Some (p, e) else None)"
| "importSpan _ = None"

definition importDecls :: "File \<Rightarrow> (nat \<times> nat) list" where
  "importDecls f = List.map_filter importSpan (preorder (fileNode f))"

definition operandOf :: "Node \<Rightarrow> Ident option" where
  "operandOf n = (case n of SelectorExpr (IdentNode ident) sel \<Rightarrow> Some ident | _ \<Rightarrow> None)"

definition selectorOperands :: "File \<Rightarrow> Ident list" where
  "selectorOperands f = List.map_filter operandOf (preorder (fileNode f))"

text \<open>
  The closures that \<open>isIdentInLHSOfSelectorExpr\<close> and \<open>findImportStatementRange\<close>
  hand to \<open>Inspect\<close>, by name.
\<close>

definition selectorStep :: "Node \<Rightarrow> bool \<Rightarrow> bool \<times> bool" where
  "selectorStep =
     (\<lambda>n result.
        case n of
          SelectorExpr x sel \<Rightarrow>
            (case x of
               IdentNode _ \<Rightarrow> (False, True)
             | _ \<Rightarrow> (True, result))
        | _ \<Rightarrow> (True, result))"

definition rangeStep :: "Node \<Rightarrow> nat \<times> nat \<Rightarrow> bool \<times> nat \<times> nat" where
  "rangeStep =
     (\<lambda>n (startPos, endPos).
        case n of
          GenDecl tok p e specs \<Rightarrow>
            if tok = IMPORT
            then (True, (if startPos = 0 then p else startPos), e)
            else (True, startPos, endPos)
        | _ \<Rightarrow> (True, startPos, endPos))"

subsection \<open>Example files\<close>

text \<open>
  Each file is the syntax tree of the Go text quoted with it, where a semicolon
  stands for a line break and an empty line follows the package clause and the
  imports; a position is the byte offset plus one.

  \<^verbatim>\<open>package main; import "fmt"; func main() { fmt.Println(os) }\<close>.
  \<open>fmt\<close> and \<open>os\<close> are the identifiers the parser leaves unresolved.
\<close>

definition file_println_os :: File where
  "file_println_os =
     \<lparr>PackageName = Ident 9 ''main'',
      Decls =
        [GenDecl IMPORT 15 27 [OtherNode 22 [OtherNode 22 []]],
         OtherNode 29
           [IdentNode (Ident 34 ''main''),
            OtherNode 29 [OtherNode 38 []],
            OtherNode 41
              [OtherNode 43
                 [OtherNode 43
                    [SelectorExpr (IdentNode (Ident 43 ''fmt'')) (Ident 47 ''Println''),
                     IdentNode (Ident 55 ''os'')]]]]],
      Imports = [ImportSpec None ([CHR 0x22] @ ''fmt'' @ [CHR 0x22])],
      Unresolved = [Ident 43 ''fmt'', Ident 55 ''os'']\<rparr>"

text \<open>
  \<^verbatim>\<open>package main; import ( "fmt"; "os" ); func main() { fmt.Println() }\<close>,
  with the objects the type checker binds: \<open>fmt\<close> in the call is the package name
  \<open>fmt\<close>; nothing refers to \<open>os\<close>.
\<close>

definition file_fmt_os :: File where
  "file_fmt_os =
     \<lparr>PackageName = Ident 9 ''main'',
      Decls =
        [GenDecl IMPORT 15 38 [OtherNode 25 [OtherNode 25 []], OtherNode 32 [OtherNode 32 []]],
         OtherNode 40
           [IdentNode (Ident 45 ''main''),
            OtherNode 40 [OtherNode 49 []],
            OtherNode 52
              [OtherNode 54
                 [OtherNode 54
                    [SelectorExpr (IdentNode (Ident 54 ''fmt'')) (Ident 58 ''Println'')]]]]],
      Imports =
        [ImportSpec None ([CHR 0x22] @ ''fmt'' @ [CHR 0x22]),
         ImportSpec None ([CHR 0x22] @ ''os'' @ [CHR 0x22])],
      Unresolved = [Ident 54 ''fmt'']\<rparr>"

definition objects_fmt_os :: "Ident \<Rightarrow> Object option" where
  "objects_fmt_os ident =
     (if ident = Ident 54 ''fmt'' then Some (PkgName ''fmt'')
      else if ident = Ident 58 ''Println'' then Some (OtherObject ''Println'')
      else if ident = Ident 45 ''main'' then Some (OtherObject ''main'')
      else None)"

text \<open>\<^verbatim>\<open>package main; func main() { foo.Bar() }\<close>\<close>

definition file_foo_Bar :: File where
  "file_foo_Bar =
     \<lparr>PackageName = Ident 9 ''main'',
      Decls =
        [OtherNode 15
           [IdentNode (Ident 20 ''main''),
            OtherNode 15 [OtherNode 24 []],
            OtherNode 27
              [OtherNode 29
                 [OtherNode 29
                    [SelectorExpr (IdentNode (Ident 29 ''foo'')) (Ident 33 ''Bar'')]]]]],
      Imports = [],
      Unresolved = [Ident 29 ''foo'']\<rparr>"

text \<open>\<^verbatim>\<open>package p; import "fmt"; import "os"; var x int\<close>: two import declarations.\<close>

definition file_two_import_blocks :: File where
  "file_two_import_blocks =
     \<lparr>PackageName = Ident 9 ''p'',
      Decls =
        [GenDecl IMPORT 12 24 [OtherNode 19 [OtherNode 19 []]],
         GenDecl IMPORT 25 36 [OtherNode 32 [OtherNode 32 []]],
         GenDecl VAR 38 47 [OtherNode 42 [IdentNode (Ident 42 ''x''), IdentNode (Ident 44 ''int'')]]],
      Imports =
        [ImportSpec None ([CHR 0x22] @ ''fmt'' @ [CHR 0x22]),
         ImportSpec None ([CHR 0x22] @ ''os'' @ [CHR 0x22])],
      Unresolved = [Ident 44 ''int'']\<rparr>"

text \<open>\<^verbatim>\<open>package p; import (); var x int\<close>: an import declaration without specifications.\<close>

definition file_empty_import_decl :: File where
  "file_empty_import_decl =
     \<lparr>PackageName = Ident 9 ''p'',
      Decls =
        [GenDecl IMPORT 12 21 [],
         GenDecl VAR 23 32 [OtherNode 27 [IdentNode (Ident 27 ''x''), IdentNode (Ident 29 ''int'')]]],
      Imports = [],
      Unresolved = [Ident 29 ''int'']\<rparr>"

text \<open>\<^verbatim>\<open>package p; var x int\<close>, and \<^verbatim>\<open>package p\<close> alone.\<close>

definition file_no_imports :: File where
  "file_no_imports =
     \<lparr>PackageName = Ident 9 ''p'',
      Decls =
        [GenDecl VAR 12 21 [OtherNode 16 [IdentNode (Ident 16 ''x''), IdentNode (Ident 18 ''int'')]]],
      Imports = [],
      Unresolved = [Ident 18 ''int'']\<rparr>"

definition file_package_clause_only :: File where
  "file_package_clause_only =
     \<lparr>PackageName = Ident 9 ''p'', Decls = [], Imports = [], Unresolved = []\<rparr>"

text \<open>
  A transformation bound to a file of one file set with base 1, where nothing is
  bound to an object and the log starts empty.
\<close>

definition transformation_of :: "File option \<Rightarrow> FixImportsTransformation" where
  "transformation_of f =
     \<lparr>file' = f, filename = ''p.go'', ObjectOf = (\<lambda>ident. None),
      PositionOffset = (\<lambda>p. int p - 1), RemoveInitialErrors = (\<lambda>lg. []),
      log = [], editSet = []\<rparr>"

section \<open>Properties\<close>

subsection \<open>Folds that build lists\<close>

lemma fold_snoc_map: "fold (\<lambda>x acc. acc @ [g x]) xs acc = acc @ map g xs"
  by (induction xs arbitrary: acc) auto

lemma fold_append_concat:
  "fold (\<lambda>line buffer. buffer @ g line) ls buffer = buffer @ concat (map g ls)"
  by (induction ls arbitrary: buffer) auto

lemma fold_concat_map:
  "fold g (concat (map h xs)) s = fold (\<lambda>x. fold g (h x)) xs s"
  by (induction xs arbitrary: s) auto

lemma fold_filter_snoc:
  "fold (\<lambda>x acc. if P x then acc @ [x] else acc) xs acc = acc @ filter P xs"
  by (induction xs arbitrary: acc) auto

lemma map_filter_Cons:
  "List.map_filter g (x # xs) =
     (case g x of None \<Rightarrow> List.map_filter g xs | Some y \<Rightarrow> y # List.map_filter g xs)"
  by (simp add: List.map_filter_def split: option.splits)

lemma takeWhile_length_eq:
  assumes "length (takeWhile P xs) = length xs"
  shows "takeWhile P xs = xs"
proof -
  have "length (takeWhile P xs) + length (dropWhile P xs) = length xs"
    by (metis length_append takeWhile_dropWhile_id)
  with assms have "dropWhile P xs = []" by simp
  then show ?thesis by (metis append_Nil2 takeWhile_dropWhile_id)
qed

subsection \<open>Bare names are the paths without a slash\<close>

lemma isBareFilename_iff: "isBareFilename p \<longleftrightarrow> CHR ''/'' \<notin> set p"
proof -
  let ?P = "\<lambda>c. c \<noteq> CHR ''/''"
  let ?t = "takeWhile ?P (rev p)"
  have le: "length ?t \<le> length p"
    using length_takeWhile_le[of ?P "rev p"] by simp
  have "isBareFilename p \<longleftrightarrow> take (length p - length ?t) p = []"
    by (simp add: isBareFilename_def path_Split_def Let_def)
  also have "\<dots> \<longleftrightarrow> length ?t = length (rev p)"
    using le by (cases p) auto
  also have "\<dots> \<longleftrightarrow> ?t = rev p"
  proof
    assume "length ?t = length (rev p)"
    then show "?t = rev p" by (rule takeWhile_length_eq)
  next
    assume "?t = rev p"
    then show "length ?t = length (rev p)" by (rule arg_cong)
  qed
  also have "\<dots> \<longleftrightarrow> (\<forall>x\<in>set (rev p). ?P x)"
    by (rule takeWhile_eq_all_conv)
  also have "\<dots> \<longleftrightarrow> CHR ''/'' \<notin> set p"
    by (simp only: set_rev) blast
  finally show ?thesis .
qed

lemma isBareFilename_Split:
  assumes "isBareFilename p"
  shows "filepath_Split p = ('''', p)"
proof -
  from assms have "\<forall>x\<in>set (rev p). x \<noteq> CHR ''/''"
    by (auto simp: isBareFilename_iff)
  then have t: "takeWhile (\<lambda>c. c \<noteq> CHR ''/'') (rev p) = rev p"
    by (simp only: takeWhile_eq_all_conv)
  show ?thesis
    unfolding filepath_Split_def path_Split_def Let_def t by simp
qed

lemma VirtualFileSystem_OpenFile_bare:
  assumes "isBareFilename p" and "\<not> isInGoRoot p h"
  shows "VirtualFileSystem_OpenFile p h fs =
           (case files fs p of
              None \<Rightarrow> (Inl (Errorf (''Virtual file not found: '' @ p)), h)
            | Some contents \<Rightarrow> (Inr contents, h))"
  using assms by (simp add: VirtualFileSystem_OpenFile_def isBareFilename_Split)

subsection \<open>A visitor that never prunes sees every node, in source order\<close>

lemma Inspect_unfold:
  "fst (f n s) \<Longrightarrow> Inspect f n s = fold (Inspect f) (children n) (snd (f n s))"
  by (subst Inspect.simps) (cases "f n s", simp)

lemma Inspect_visits_all:
  assumes "\<And>m t. fst (f m t)"
  shows "Inspect f n s = fold (\<lambda>m t. snd (f m t)) (preorder n) s"
proof (induction n arbitrary: s)
  case (IdentNode ident)
  show ?case
    by (simp add: Inspect_unfold assms)
next
  case (SelectorExpr x sel)
  show ?case
    by (simp add: Inspect_unfold[of f "SelectorExpr x sel"] Inspect_unfold[of f "IdentNode sel"]
        assms SelectorExpr.IH)
next
  case (GenDecl tok p e specs)
  have "fold (Inspect f) specs t = fold (\<lambda>m t. snd (f m t)) (concat (map preorder specs)) t"
    for t
    unfolding fold_concat_map
    by (rule fold_cong) (auto simp: GenDecl.IH)
  then show ?case
    by (simp add: Inspect_unfold[of f "GenDecl tok p e specs"] assms)
next
  case (OtherNode p ns)
  have "fold (Inspect f) ns t = fold (\<lambda>m t. snd (f m t)) (concat (map preorder ns)) t"
    for t
    unfolding fold_concat_map
    by (rule fold_cong) (auto simp: OtherNode.IH)
  then show ?case
    by (simp add: Inspect_unfold[of f "OtherNode p ns"] assms)
qed

subsection \<open>Which unresolved identifiers are sent to the catalog\<close>

text \<open>
  What the code decides: whether the file has any selector expression whose operand
  is an identifier.  The identifier asked about plays no part.
\<close>

lemma map_filter_append:
  "List.map_filter g (xs @ ys) = List.map_filter g xs @ List.map_filter g ys"
  by (simp add: List.map_filter_def)

lemma Inspect_pruned:
  "\<not> fst (f n s) \<Longrightarrow> Inspect f n s = snd (f n s)"
  by (subst Inspect.simps) (cases "f n s", simp)

lemma selectorStep_simps:
  "selectorStep (IdentNode ident) r = (True, r)"
  "selectorStep (SelectorExpr (IdentNode ident) sel) r = (False, True)"
  "selectorStep (SelectorExpr (SelectorExpr y sel') sel) r = (True, r)"
  "selectorStep (SelectorExpr (GenDecl tok p e specs) sel) r = (True, r)"
  "selectorStep (SelectorExpr (OtherNode p ns) sel) r = (True, r)"
  "selectorStep (GenDecl tok p e specs) r = (True, r)"
  "selectorStep (OtherNode p ns) r = (True, r)"
  by (simp_all add: selectorStep_def)

lemma operandOf_simps:
  "operandOf (IdentNode ident) = None"
  "operandOf (SelectorExpr (IdentNode ident) sel) = Some ident"
  "operandOf (SelectorExpr (SelectorExpr y sel') sel) = None"
  "operandOf (SelectorExpr (GenDecl tok p e specs) sel) = None"
  "operandOf (SelectorExpr (OtherNode p ns) sel) = None"
  "operandOf (GenDecl tok p e specs) = None"
  "operandOf (OtherNode p ns) = None"
  by (simp_all add: operandOf_def)

lemma fold_Inspect_selectorStep:
  assumes "\<And>c r. c \<in> set cs \<Longrightarrow>
             Inspect selectorStep c r = (r \<or> List.map_filter operandOf (preorder c) \<noteq> [])"
  shows "fold (Inspect selectorStep) cs r
           = (r \<or> List.map_filter operandOf (concat (map preorder cs)) \<noteq> [])"
  using assms
proof (induction cs arbitrary: r)
  case Nil
  show ?case by (simp add: List.map_filter_def)
next
  case (Cons c cs)
  have "fold (Inspect selectorStep) (c # cs) r
          = fold (Inspect selectorStep) cs (Inspect selectorStep c r)"
    by simp
  also have "\<dots> = (Inspect selectorStep c r
                     \<or> List.map_filter operandOf (concat (map preorder cs)) \<noteq> [])"
    by (rule Cons.IH) (simp add: Cons.prems)
  also have "Inspect selectorStep c r = (r \<or> List.map_filter operandOf (preorder c) \<noteq> [])"
    by (simp add: Cons.prems)
  finally show ?case
    by (auto simp: map_filter_append)
qed

lemma Inspect_selectorStep:
  "Inspect selectorStep n r = (r \<or> List.map_filter operandOf (preorder n) \<noteq> [])"
proof (induction n arbitrary: r)
  case (IdentNode ident)
  show ?case
    by (simp add: Inspect_unfold selectorStep_simps operandOf_simps map_filter_Cons
        List.map_filter_simps)
next
  case (SelectorExpr x sel)
  have leaf: "Inspect selectorStep (IdentNode sel) t = t" for t
    by (simp add: Inspect_unfold selectorStep_simps)
  show ?case
  proof (cases "\<exists>ident. x = IdentNode ident")
    case True
    then show ?thesis
      by (auto simp: Inspect_pruned selectorStep_simps operandOf_simps map_filter_Cons)
  next
    case False
    then have step: "selectorStep (SelectorExpr x sel) r = (True, r)"
      and operand: "operandOf (SelectorExpr x sel) = None"
      by (cases x; simp add: selectorStep_simps operandOf_simps)+
    have "Inspect selectorStep (SelectorExpr x sel) r
            = (r \<or> List.map_filter operandOf (preorder x) \<noteq> [])"
      by (simp add: Inspect_unfold[of selectorStep "SelectorExpr x sel"] step leaf
          SelectorExpr.IH)
    moreover have "List.map_filter operandOf (preorder (SelectorExpr x sel))
            = List.map_filter operandOf (preorder x)"
      by (simp add: map_filter_Cons map_filter_append operand operandOf_simps
          List.map_filter_simps)
    ultimately show ?thesis
      by simp
  qed
next
  case (GenDecl tok p e specs)
  have "fold (Inspect selectorStep) specs r
          = (r \<or> List.map_filter operandOf (concat (map preorder specs)) \<noteq> [])"
    by (rule fold_Inspect_selectorStep) (rule GenDecl.IH)
  then show ?case
    by (simp add: Inspect_unfold[of selectorStep "GenDecl tok p e specs"] selectorStep_simps
        operandOf_simps map_filter_Cons)
next
  case (OtherNode p ns)
  have "fold (Inspect selectorStep) ns r
          = (r \<or> List.map_filter operandOf (concat (map preorder ns)) \<noteq> [])"
    by (rule fold_Inspect_selectorStep) (rule OtherNode.IH)
  then show ?case
    by (simp add: Inspect_unfold[of selectorStep "OtherNode p ns"] selectorStep_simps
        operandOf_simps map_filter_Cons)
qed

lemma isIdentInLHSOfSelectorExpr_iff:
  "isIdentInLHSOfSelectorExpr f ident \<longleftrightarrow> selectorOperands f \<noteq> []"
proof -
  have "selectorOperands f = List.map_filter operandOf (preorder (fileNode f))"
    by (simp add: selectorOperands_def)
  moreover have "isIdentInLHSOfSelectorExpr f ident = Inspect selectorStep (fileNode f) False"
    unfolding isIdentInLHSOfSelectorExpr_def selectorStep_def ..
  ultimately show ?thesis
    by (simp add: Inspect_selectorStep)
qed

lemma isIdentInLHSOfSelectorExpr_any_identifier:
  "isIdentInLHSOfSelectorExpr f ident = isIdentInLHSOfSelectorExpr f ident'"
  by (simp add: isIdentInLHSOfSelectorExpr_def)

text \<open>
  Claim C1: for every unresolved identifier, inference of a missing import is tried
  if and only if that same identifier is the left operand of a selector expression
  in the file; an unresolved identifier that never stands there is not looked up in
  the catalog and yields the diagnostic "Unable to resolve" with its name.

  \<open>isIdentInLHSOfSelectorExpr\<close> never looks at its argument: it answers whether
  any selector expression of the file has an identifier as operand.  In
  \<^verbatim>\<open>fmt.Println(os)\<close> the only selector operand is \<open>fmt\<close>; the unresolved \<open>os\<close>
  is an argument of the call.  It is looked up in the catalog all the same, the
  import \<^verbatim>\<open>"os"\<close> is returned for staging and nothing is logged.
\<close>

theorem resolve_ignores_which_identifier:
  "Ident 55 ''os'' \<in> set (Unresolved file_println_os)
   \<and> selectorOperands file_println_os = [Ident 43 ''fmt'']
   \<and> isIdentInLHSOfSelectorExpr file_println_os (Ident 55 ''os'')
   \<and> resolve file_println_os (Ident 55 ''os'') [] = ([CHR 0x22] @ ''os'' @ [CHR 0x22], [])"
  by code_simp

subsection \<open>Pruning\<close>

text \<open>
  What the code keeps: an import whose local name (the empty string when none is
  written) or whose path literal is the name of a package that some identifier of
  the file is bound to.
\<close>

lemma collectReferencedPackages_iff:
  "collectReferencedPackages objectOf f name \<noteq> None \<longleftrightarrow>
     (\<exists>ident. IdentNode ident \<in> set (preorder (fileNode f))
        \<and> objectOf ident = Some (PkgName name))"
proof -
  let ?step = "\<lambda>n packagesReferenced.
          case n of
            IdentNode ident \<Rightarrow>
              (case objectOf ident of
                 Some (PkgName name) \<Rightarrow> (True, packagesReferenced(name \<mapsto> ''''))
               | _ \<Rightarrow> (True, packagesReferenced))
          | _ \<Rightarrow> (True, packagesReferenced)"
  have always: "fst (?step m t)" for m t
    by (auto split: Node.splits option.splits Object.splits)
  have scan: "fold (\<lambda>m t. snd (?step m t)) ns refs name = None \<longleftrightarrow>
          refs name = None
          \<and> (\<forall>ident. IdentNode ident \<in> set ns \<longrightarrow> objectOf ident \<noteq> Some (PkgName name))"
    for ns and refs :: "string \<rightharpoonup> string"
  proof (induction ns arbitrary: refs)
    case Nil
    show ?case by simp
  next
    case (Cons n ns)
    show ?case
    proof (cases n)
      case (IdentNode ident)
      show ?thesis
      proof (cases "objectOf ident")
        case None
        with IdentNode show ?thesis by (auto simp: Cons)
      next
        case (Some obj)
        with IdentNode show ?thesis
          by (cases obj) (auto simp: Cons)
      qed
    qed (auto simp: Cons)
  qed
  have "collectReferencedPackages objectOf f name = None \<longleftrightarrow>
          (\<forall>ident. IdentNode ident \<in> set (preorder (fileNode f))
              \<longrightarrow> objectOf ident \<noteq> Some (PkgName name))"
    unfolding collectReferencedPackages_def
    by (simp only: Inspect_visits_all[of ?step, OF always] scan) simp
  then show ?thesis
    by simp
qed

lemma fst_set_update: "fst ` set (AList.update k v al) = insert k (fst ` set al)"
  by (induction al) auto

lemma findUsedImports_keeps_iff:
  "path \<in> fst ` set (findUsedImports objectOf f) \<longleftrightarrow>
     (\<exists>imprt \<in> set (Imports f).
        ImportPath imprt = path
        \<and> (collectReferencedPackages objectOf f
              (case ImportName imprt of None \<Rightarrow> '''' | Some ident \<Rightarrow> Name ident) \<noteq> None
           \<or> collectReferencedPackages objectOf f path \<noteq> None))"
proof -
  let ?refs = "collectReferencedPackages objectOf f"
  let ?step = "\<lambda>imprt imports.
              let path = ImportPath imprt;
                  name = (case ImportName imprt of None \<Rightarrow> '''' | Some ident \<Rightarrow> Name ident);
                  foundName = (?refs name \<noteq> None);
                  foundPkg = (?refs path \<noteq> None)
              in if foundName \<or> foundPkg then AList.update path name imports else imports"
  have "path \<in> fst ` set (fold ?step is acc) \<longleftrightarrow>
          path \<in> fst ` set acc
          \<or> (\<exists>imprt \<in> set is.
                ImportPath imprt = path
                \<and> (?refs (case ImportName imprt of None \<Rightarrow> '''' | Some ident \<Rightarrow> Name ident)
                      \<noteq> None
                   \<or> ?refs path \<noteq> None))"
    for "is" acc
  proof (induction "is" arbitrary: acc)
    case Nil
    show ?case by simp
  next
    case (Cons i "is")
    show ?case
      unfolding fold_Cons comp_apply Cons
      by (auto simp: Let_def fst_set_update simp del: fold_simps)
  qed
  from this[of "Imports f" "[]"] show ?thesis
    unfolding findUsedImports_def Let_def by simp
qed

text \<open>
  Claim C2: pruning keeps an import declaration if and only if its alias, when it
  has one, or its path is in the set of referenced packages, and drops it silently
  otherwise; in a file that imports "fmt" and "os" and refers to \<open>fmt\<close> only, the
  pruned set is exactly "fmt".

  The path compared is \<^verbatim>\<open>Path.Value\<close>, the literal with its quotation marks, and the
  name compared for an import without alias is the empty string; the set holds
  package names such as \<open>fmt\<close>.  In the file of the claim the identifier \<open>fmt\<close> is
  recorded as referenced, and yet both imports are dropped.
\<close>

theorem findUsedImports_drops_referenced_fmt:
  "collectReferencedPackages objects_fmt_os file_fmt_os ''fmt'' = Some ''''
   \<and> findUsedImports objects_fmt_os file_fmt_os = []"
  by code_simp

subsection \<open>Catalog lookup\<close>

text \<open>
  The candidates are the catalog entries whose last segment is the identifier's name.
  One candidate is returned in quotation marks and nothing is logged; any other
  number of candidates, none included, returns the empty string and logs the
  message about multiple packages followed by the candidates.
\<close>

lemma strings_Split_nonempty: "strings_Split s sep \<noteq> []"
  by (induction s) (auto split: list.splits)

lemma resolveSelector_outcomes:
  "resolveSelector ident lg =
     (let candidates =
            filter (\<lambda>pkg. last (strings_Split pkg CHR ''/'') = Name ident) goLibraryPackages
      in if length candidates = 1
         then ([CHR 0x22] @ hd candidates @ [CHR 0x22], lg)
         else ('''',
               lg @ [(ERROR,
                      ''There are multiple packages named '' @ Name ident @ '':\<newline>''
                      @ concat (map (\<lambda>candidate. ''    '' @ candidate @ ''\<newline>'')
                                  candidates))]))"
proof -
  let ?P = "\<lambda>pkg. last (strings_Split pkg CHR ''/'') = Name ident"
  have last: "strings_Split pkg CHR ''/'' ! (length (strings_Split pkg CHR ''/'') - 1)
                = last (strings_Split pkg CHR ''/'')" for pkg
    by (simp add: last_conv_nth strings_Split_nonempty)
  have cands: "fold
          (\<lambda>pkg candidates.
             if strings_Split pkg CHR ''/'' ! (length (strings_Split pkg CHR ''/'') - 1) = Name ident
             then candidates @ [pkg] else candidates)
          goLibraryPackages []
        = filter ?P goLibraryPackages"
    using fold_filter_snoc[of ?P goLibraryPackages "[]"]
    by (simp only: last append_Nil)
  have hd: "length cs = Suc 0 \<Longrightarrow> cs ! 0 = hd cs" for cs :: "string list"
    by (cases cs) simp_all
  show ?thesis
    unfolding resolveSelector_def Let_def
    unfolding cands Log_def fold_append_concat
    by (simp add: hd)
qed

lemma resolveSelector_filepath:
  "resolveSelector (Ident 1 ''filepath'') lg
     = ([CHR 0x22] @ ''path/filepath'' @ [CHR 0x22], lg)"
  by code_simp

lemma resolveSelector_rand:
  "resolveSelector (Ident 1 ''rand'') []
     = ('''', [(ERROR, ''There are multiple packages named rand:\<newline>''
                        @ ''    crypto/rand\<newline>'' @ ''    math/rand\<newline>'')])"
  by code_simp

text \<open>
  Claim C3: for an unresolved identifier in selector position the lookup has three
  outcomes: no match stages nothing and adds no diagnostic of its own; one match
  stages that path without alias; several matches stage nothing and log a diagnostic
  that lists every candidate (for \<open>rand\<close>: \<open>crypto/rand\<close> and \<open>math/rand\<close>).

  One match and several matches behave as claimed (the three lemmas above).  With no
  match the code takes the same branch as with several: for \<^verbatim>\<open>foo.Bar()\<close> it logs
  an error that says there are multiple packages named \<open>foo\<close> and lists none.
\<close>

theorem resolveSelector_no_match_reports_multiple:
  "selectorOperands file_foo_Bar = [Ident 29 ''foo'']
   \<and> resolve file_foo_Bar (Ident 29 ''foo'') []
       = ('''', [(ERROR, ''There are multiple packages named foo:\<newline>'')])"
  by code_simp

subsection \<open>Renaming to a name with a directory prefix\<close>

lemma Rename_guard_on_other_backends:
  "\<not> isBareFilename newName \<Longrightarrow>
     LocalFileSystem_Rename os_Rename path_Dir path_Join oldPath newName h
       = (Some (Errorf (''newName must be a bare filename: '' @ newName)), h)"
  "EditedFileSystem_Rename path newName s = (Some (Panic ''Rename unsupported''), s)"
  by (simp_all add: LocalFileSystem_Rename_def EditedFileSystem_Rename_def)

text \<open>
  Claim C4: on each of the three backends, \<open>rename(path, newName)\<close> with a
  \<open>newName\<close> that contains a directory separator fails and changes nothing;
  rename also fails when \<open>path\<close> does not exist.

  The local backend tests \<open>isBareFilename\<close> and the overlay refuses every rename
  (the lemma above).  The virtual backend has no such test: renaming \<open>a\<close> to
  \<open>d/b\<close> succeeds and moves the content to the key \<open>d/b\<close>.
\<close>

theorem VirtualFileSystem_Rename_accepts_directory_prefix:
  "\<not> isBareFilename ''d/b''
   \<and> fst (VirtualFileSystem_Rename ''a'' ''d/b'' \<lparr>files = [''a'' \<mapsto> ''c'']\<rparr>) = None
   \<and> files (snd (VirtualFileSystem_Rename ''a'' ''d/b'' \<lparr>files = [''a'' \<mapsto> ''c'']\<rparr>)) ''d/b''
       = Some ''c''
   \<and> files (snd (VirtualFileSystem_Rename ''a'' ''d/b'' \<lparr>files = [''a'' \<mapsto> ''c'']\<rparr>)) ''a''
       = None"
  by (simp add: VirtualFileSystem_Rename_def isBareFilename_iff)

subsection \<open>Serialisation is deterministic\<close>

lemma constructNewImportStatement_eq:
  "constructNewImportStatement importSet =
     ''import (\<newline>''
     @ concat (map (\<lambda>line. [CHR 0x09] @ line @ ''\<newline>'')
         (sort (map (\<lambda>(path, name). if name = '''' then path else name @ '' '' @ path)
                  importSet)))
     @ '')\<newline>''"
proof -
  have "fold (\<lambda>(path, name) imports.
                 let thisImport = (if name = '''' then path else name @ '' '' @ path)
                 in imports @ [thisImport]) importSet []
        = map (\<lambda>(path, name). if name = '''' then path else name @ '' '' @ path) importSet"
    using fold_snoc_map[of "\<lambda>(path, name). if name = '''' then path else name @ '' '' @ path"
        importSet "[]"]
    by (simp add: case_prod_unfold Let_def)
  then show ?thesis
    unfolding constructNewImportStatement_def Let_def
    by (simp only: fold_append_concat[of "\<lambda>line. [CHR 0x09] @ line @ ''\<newline>''"] append_assoc)
qed

text \<open>
  Claim C5: an import set is rendered as one line for each entry, "alias path" or
  the path alone when the alias is empty; the lines are sorted lexicographically and
  wrapped in one block; so two enumerations of the same map, whatever the order of
  iteration, give the same bytes.
\<close>

theorem constructNewImportStatement_deterministic:
  assumes "distinct (map fst xs)" and "distinct (map fst ys)" and "set xs = set ys"
  shows "constructNewImportStatement xs = constructNewImportStatement ys
       \<and> (\<exists>lines.
             mset lines
               = mset (map (\<lambda>(path, name). if name = '''' then path else name @ '' '' @ path) xs)
           \<and> sorted lines
           \<and> constructNewImportStatement xs
               = ''import (\<newline>''
                 @ concat (map (\<lambda>line. [CHR 0x09] @ line @ ''\<newline>'') lines)
                 @ '')\<newline>'')"
proof -
  let ?r = "\<lambda>(path :: string, name :: string). if name = '''' then path else name @ '' '' @ path"
  from assms(1,2) have "distinct xs" and "distinct ys"
    by (simp_all add: distinct_map)
  with assms(3) have "mset xs = mset ys"
    by (simp add: set_eq_iff_mset_eq_distinct)
  then have m: "mset (map ?r xs) = mset (map ?r ys)"
    by simp
  have "sort (map ?r xs) = sort (map ?r ys)"
  proof (rule properties_for_sort)
    show "mset (sort (map ?r ys)) = mset (map ?r xs)"
      using m by simp
    show "sorted (sort (map ?r ys))"
      by simp
  qed
  then have same: "constructNewImportStatement xs = constructNewImportStatement ys"
    by (simp only: constructNewImportStatement_eq)
  have "mset (sort (map ?r xs)) = mset (map ?r xs)"
    by simp
  moreover have "sorted (sort (map ?r xs))"
    by simp
  moreover note constructNewImportStatement_eq[of xs]
  ultimately have "\<exists>lines. mset lines = mset (map ?r xs) \<and> sorted lines
      \<and> constructNewImportStatement xs
            = ''import (\<newline>''
              @ concat (map (\<lambda>line. [CHR 0x09] @ line @ ''\<newline>'') lines)
              @ '')\<newline>''"
    by (intro exI[of _ "sort (map ?r xs)"] conjI)
  with same show ?thesis
    by (rule conjI)
qed

theorem constructNewImportStatement_deterministic_witness:
  "constructNewImportStatement [([CHR 0x22] @ ''os'' @ [CHR 0x22], ''o''), ([CHR 0x22] @ ''fmt'' @ [CHR 0x22], '''')]
     = constructNewImportStatement [([CHR 0x22] @ ''fmt'' @ [CHR 0x22], ''''), ([CHR 0x22] @ ''os'' @ [CHR 0x22], ''o'')]
   \<and> constructNewImportStatement [([CHR 0x22] @ ''os'' @ [CHR 0x22], ''o''), ([CHR 0x22] @ ''fmt'' @ [CHR 0x22], '''')]
     = ''import (\<newline>'' @ [CHR 0x09, CHR 0x22] @ ''fmt'' @ [CHR 0x22] @ ''\<newline>''
        @ [CHR 0x09] @ ''o '' @ [CHR 0x22] @ ''os'' @ [CHR 0x22] @ ''\<newline>'' @ '')\<newline>''"
proof -
  let ?xs = "[([CHR 0x22] @ ''os'' @ [CHR 0x22], ''o''), ([CHR 0x22] @ ''fmt'' @ [CHR 0x22], '''')]"
  let ?ys = "[([CHR 0x22] @ ''fmt'' @ [CHR 0x22], ''''), ([CHR 0x22] @ ''os'' @ [CHR 0x22], ''o'')]"
  have d1: "distinct (map fst ?xs)" by simp
  have d2: "distinct (map fst ?ys)" by simp
  have s: "set ?xs = set ?ys" by auto
  have v: "constructNewImportStatement ?ys
     = ''import (\<newline>'' @ [CHR 0x09, CHR 0x22] @ ''fmt'' @ [CHR 0x22] @ ''\<newline>''
        @ [CHR 0x09] @ ''o '' @ [CHR 0x22] @ ''os'' @ [CHR 0x22] @ ''\<newline>'' @ '')\<newline>''"
    by code_simp
  from constructNewImportStatement_deterministic [OF d1 d2 s] v show ?thesis
    by simp
qed

subsection \<open>The virtual backend\<close>

text \<open>
  Claim C6: on the virtual backend, for bare names outside GOROOT: create fails on
  an existing name; rename and remove fail on a missing name; rename fails on an
  existing destination; a failing operation leaves the table as it was; after a
  successful rename of \<open>a\<close> to \<open>b\<close>, reading \<open>b\<close> gives the former content of
  \<open>a\<close> and reading \<open>a\<close> fails; create, rename, remove in a row leave the table
  empty and one more remove fails with "does not exist".
\<close>

theorem VirtualFileSystem_invariants:
  assumes "isBareFilename a" and "isBareFilename b"
    and "\<not> isInGoRoot a h" and "\<not> isInGoRoot b h"
  shows
    "(files fs a \<noteq> None \<longrightarrow>
        VirtualFileSystem_CreateFile a contents fs
          = (Some (Errorf (''File already exists: '' @ a)), fs))
   \<and> (files fs a = None \<longrightarrow>
        VirtualFileSystem_Rename a b fs = (Some (Errorf (''File does not exist: '' @ a)), fs)
      \<and> VirtualFileSystem_Remove a fs = (Some (Errorf (''File does not exist: '' @ a)), fs))
   \<and> (files fs a \<noteq> None \<and> files fs b \<noteq> None \<longrightarrow>
        VirtualFileSystem_Rename a b fs = (Some (Errorf (''File already exists: '' @ b)), fs))
   \<and> (\<forall>fs'. VirtualFileSystem_Rename a b fs = (None, fs') \<longrightarrow>
        (\<exists>former. files fs a = Some former
           \<and> VirtualFileSystem_OpenFile b h fs' = (Inr former, h)
           \<and> VirtualFileSystem_OpenFile a h fs'
               = (Inl (Errorf (''Virtual file not found: '' @ a)), h)))
   \<and> (a \<noteq> b \<longrightarrow>
        (\<exists>fs1 fs2 fs3.
            VirtualFileSystem_CreateFile a contents NewVirtualFileSystem = (None, fs1)
          \<and> VirtualFileSystem_Rename a b fs1 = (None, fs2)
          \<and> VirtualFileSystem_Remove b fs2 = (None, fs3)
          \<and> files fs3 = Map.empty
          \<and> VirtualFileSystem_Remove b fs3
              = (Some (Errorf (''File does not exist: '' @ b)), fs3)))"
proof (intro conjI impI allI)
  assume "files fs a \<noteq> None"
  then show "VirtualFileSystem_CreateFile a contents fs
               = (Some (Errorf (''File already exists: '' @ a)), fs)"
    by (simp add: VirtualFileSystem_CreateFile_def)
next
  assume "files fs a = None"
  then show "VirtualFileSystem_Rename a b fs
               = (Some (Errorf (''File does not exist: '' @ a)), fs)"
    by (simp add: VirtualFileSystem_Rename_def)
next
  assume "files fs a = None"
  then show "VirtualFileSystem_Remove a fs
               = (Some (Errorf (''File does not exist: '' @ a)), fs)"
    by (simp add: VirtualFileSystem_Remove_def)
next
  assume "files fs a \<noteq> None \<and> files fs b \<noteq> None"
  then show "VirtualFileSystem_Rename a b fs
               = (Some (Errorf (''File already exists: '' @ b)), fs)"
    by (auto simp: VirtualFileSystem_Rename_def)
next
  fix fs'
  assume ok: "VirtualFileSystem_Rename a b fs = (None, fs')"
  then obtain former where former: "files fs a = Some former"
    by (cases "files fs a") (auto simp: VirtualFileSystem_Rename_def)
  with ok have free: "files fs b = None"
    and fs': "fs' = fs\<lparr>files := ((files fs)(b \<mapsto> former))(a := None)\<rparr>"
    by (auto simp: VirtualFileSystem_Rename_def split: if_splits)
  from former free have "a \<noteq> b" by auto
  with fs' have "files fs' b = Some former" and "files fs' a = None"
    by auto
  then have "VirtualFileSystem_OpenFile b h fs' = (Inr former, h)"
    and "VirtualFileSystem_OpenFile a h fs'
           = (Inl (Errorf (''Virtual file not found: '' @ a)), h)"
    using assms by (simp_all add: VirtualFileSystem_OpenFile_bare)
  with former show "\<exists>former. files fs a = Some former
           \<and> VirtualFileSystem_OpenFile b h fs' = (Inr former, h)
           \<and> VirtualFileSystem_OpenFile a h fs'
               = (Inl (Errorf (''Virtual file not found: '' @ a)), h)"
    by simp
next
  assume "a \<noteq> b"
  then show "\<exists>fs1 fs2 fs3.
            VirtualFileSystem_CreateFile a contents NewVirtualFileSystem = (None, fs1)
          \<and> VirtualFileSystem_Rename a b fs1 = (None, fs2)
          \<and> VirtualFileSystem_Remove b fs2 = (None, fs3)
          \<and> files fs3 = Map.empty
          \<and> VirtualFileSystem_Remove b fs3
              = (Some (Errorf (''File does not exist: '' @ b)), fs3)"
    by (simp add: VirtualFileSystem_CreateFile_def VirtualFileSystem_Rename_def
        VirtualFileSystem_Remove_def NewVirtualFileSystem_def)
qed

theorem VirtualFileSystem_invariants_witness:
  "isBareFilename ''x'' \<and> isBareFilename ''y''
   \<and> \<not> isInGoRoot ''x'' \<lparr>disk = Map.empty, GOROOT = ''/usr/local/go''\<rparr>
   \<and> \<not> isInGoRoot ''y'' \<lparr>disk = Map.empty, GOROOT = ''/usr/local/go''\<rparr>
   \<and> VirtualFileSystem_CreateFile ''x'' ''2'' \<lparr>files = [''x'' \<mapsto> ''1'']\<rparr>
       = (Some (Errorf ''File already exists: x''), \<lparr>files = [''x'' \<mapsto> ''1'']\<rparr>)
   \<and> VirtualFileSystem_Rename ''x'' ''y'' NewVirtualFileSystem
       = (Some (Errorf ''File does not exist: x''), NewVirtualFileSystem)
   \<and> VirtualFileSystem_Remove ''x'' NewVirtualFileSystem
       = (Some (Errorf ''File does not exist: x''), NewVirtualFileSystem)
   \<and> VirtualFileSystem_Rename ''x'' ''y'' \<lparr>files = [''x'' \<mapsto> ''1'', ''y'' \<mapsto> ''2'']\<rparr>
       = (Some (Errorf ''File already exists: y''), \<lparr>files = [''x'' \<mapsto> ''1'', ''y'' \<mapsto> ''2'']\<rparr>)
   \<and> VirtualFileSystem_OpenFile ''y'' \<lparr>disk = Map.empty, GOROOT = ''/usr/local/go''\<rparr>
        (snd (VirtualFileSystem_Rename ''x'' ''y'' \<lparr>files = [''x'' \<mapsto> ''1'']\<rparr>))
       = (Inr ''1'', \<lparr>disk = Map.empty, GOROOT = ''/usr/local/go''\<rparr>)
   \<and> VirtualFileSystem_OpenFile ''x'' \<lparr>disk = Map.empty, GOROOT = ''/usr/local/go''\<rparr>
        (snd (VirtualFileSystem_Rename ''x'' ''y'' \<lparr>files = [''x'' \<mapsto> ''1'']\<rparr>))
       = (Inl (Errorf ''Virtual file not found: x''), \<lparr>disk = Map.empty, GOROOT = ''/usr/local/go''\<rparr>)
   \<and> (\<exists>fs3. files fs3 = Map.empty
         \<and> VirtualFileSystem_Remove ''y'' fs3 = (Some (Errorf ''File does not exist: y''), fs3))"
proof -
  let ?h = "\<lparr>disk = Map.empty, GOROOT = ''/usr/local/go''\<rparr>"
  have bx: "isBareFilename ''x''" and "isBareFilename ''y''"
    by (simp_all add: isBareFilename_def path_Split_def)
  moreover have gx: "\<not> isInGoRoot ''x'' ?h" and "\<not> isInGoRoot ''y'' ?h"
    by (simp_all add: isInGoRoot_def)
  moreover note T = VirtualFileSystem_invariants [OF calculation]
  have ok: "VirtualFileSystem_Rename ''x'' ''y'' \<lparr>files = [''x'' \<mapsto> ''1'']\<rparr>
           = (None, snd (VirtualFileSystem_Rename ''x'' ''y'' \<lparr>files = [''x'' \<mapsto> ''1'']\<rparr>))"
    by (simp add: VirtualFileSystem_Rename_def)
  from T [of "\<lparr>files = [''x'' \<mapsto> ''1'']\<rparr>" "''2''"] ok
  have 1: "VirtualFileSystem_CreateFile ''x'' ''2'' \<lparr>files = [''x'' \<mapsto> ''1'']\<rparr>
       = (Some (Errorf ''File already exists: x''), \<lparr>files = [''x'' \<mapsto> ''1'']\<rparr>)"
    and 2: "VirtualFileSystem_OpenFile ''y'' ?h
        (snd (VirtualFileSystem_Rename ''x'' ''y'' \<lparr>files = [''x'' \<mapsto> ''1'']\<rparr>))
       = (Inr ''1'', ?h)"
    and 3: "VirtualFileSystem_OpenFile ''x'' ?h
        (snd (VirtualFileSystem_Rename ''x'' ''y'' \<lparr>files = [''x'' \<mapsto> ''1'']\<rparr>))
       = (Inl (Errorf ''Virtual file not found: x''), ?h)"
    and 4: "\<exists>fs3. files fs3 = Map.empty
         \<and> VirtualFileSystem_Remove ''y'' fs3 = (Some (Errorf ''File does not exist: y''), fs3)"
    by auto
  from T [of NewVirtualFileSystem "''2''"]
  have 5: "VirtualFileSystem_Rename ''x'' ''y'' NewVirtualFileSystem
       = (Some (Errorf ''File does not exist: x''), NewVirtualFileSystem)"
    and 6: "VirtualFileSystem_Remove ''x'' NewVirtualFileSystem
       = (Some (Errorf ''File does not exist: x''), NewVirtualFileSystem)"
    by (simp_all add: NewVirtualFileSystem_def)
  from T [of "\<lparr>files = [''x'' \<mapsto> ''1'', ''y'' \<mapsto> ''2'']\<rparr>" "''2''"]
  have 7: "VirtualFileSystem_Rename ''x'' ''y'' \<lparr>files = [''x'' \<mapsto> ''1'', ''y'' \<mapsto> ''2'']\<rparr>
       = (Some (Errorf ''File already exists: y''), \<lparr>files = [''x'' \<mapsto> ''1'', ''y'' \<mapsto> ''2'']\<rparr>)"
    by simp
  from calculation 1 2 3 4 5 6 7 show ?thesis
    by (intro conjI)
qed

subsection \<open>Reading through the overlay\<close>

text \<open>
  Claim C7: on the overlay backend, opening a path for reading returns the bytes of
  the base backend with the pending edit set of that path applied when there is one,
  and the bytes unchanged when there is none; either way the base backend holds
  after the call what it held before.
\<close>

theorem EditedFileSystem_OpenFile_overlay:
  "snd (EditedFileSystem_OpenFile ApplyToReader path h fs) = h
   \<and> (\<forall>bytes. disk h path = Some bytes \<longrightarrow>
         fst (EditedFileSystem_OpenFile ApplyToReader path h fs)
           = (case Edits fs path of
                None \<Rightarrow> Inr bytes
              | Some edits \<Rightarrow> ApplyToReader edits bytes))
   \<and> (disk h path = None \<longrightarrow>
         fst (EditedFileSystem_OpenFile ApplyToReader path h fs) = Inl (PathError ''open'' path))"
  by (auto simp: EditedFileSystem_OpenFile_def LocalFileSystem_OpenFile_def os_Open_def
      split: option.splits sum.splits)

theorem EditedFileSystem_OpenFile_overlay_witness:
  "snd (EditedFileSystem_OpenFile (\<lambda>e b. Inr (e @ b)) ''a.go''
          \<lparr>disk = [''a.go'' \<mapsto> ''package a''], GOROOT = ''/go''\<rparr>
          \<lparr>Edits = [''a.go'' \<mapsto> ''// x '']\<rparr>)
     = \<lparr>disk = [''a.go'' \<mapsto> ''package a''], GOROOT = ''/go''\<rparr>
   \<and> fst (EditedFileSystem_OpenFile (\<lambda>e b. Inr (e @ b)) ''a.go''
          \<lparr>disk = [''a.go'' \<mapsto> ''package a''], GOROOT = ''/go''\<rparr>
          \<lparr>Edits = [''a.go'' \<mapsto> ''// x '']\<rparr>)
     = Inr ''// x package a''
   \<and> fst (EditedFileSystem_OpenFile (\<lambda>e b. Inr (e @ b)) ''a.go''
          \<lparr>disk = [''a.go'' \<mapsto> ''package a''], GOROOT = ''/go''\<rparr>
          \<lparr>Edits = Map.empty\<rparr>)
     = Inr ''package a''
   \<and> fst (EditedFileSystem_OpenFile (\<lambda>e b. Inr (e @ b)) ''b.go''
          \<lparr>disk = [''a.go'' \<mapsto> ''package a''], GOROOT = ''/go''\<rparr>
          \<lparr>Edits = [''a.go'' \<mapsto> ''// x '']\<rparr>)
     = Inl (PathError ''open'' ''b.go'')"
  using
    EditedFileSystem_OpenFile_overlay [of "\<lambda>e b. Inr (e @ b)" "''a.go''"
      "\<lparr>disk = [''a.go'' \<mapsto> ''package a''], GOROOT = ''/go''\<rparr>"
      "\<lparr>Edits = [''a.go'' \<mapsto> ''// x '']\<rparr>"]
    EditedFileSystem_OpenFile_overlay [of "\<lambda>e b. Inr (e @ b)" "''a.go''"
      "\<lparr>disk = [''a.go'' \<mapsto> ''package a''], GOROOT = ''/go''\<rparr>"
      "\<lparr>Edits = Map.empty\<rparr>"]
    EditedFileSystem_OpenFile_overlay [of "\<lambda>e b. Inr (e @ b)" "''b.go''"
      "\<lparr>disk = [''a.go'' \<mapsto> ''package a''], GOROOT = ''/go''\<rparr>"
      "\<lparr>Edits = [''a.go'' \<mapsto> ''// x '']\<rparr>"]
  by simp

subsection \<open>Replaying a batch of changes\<close>

lemma Execute_append:
  "Execute fs pre s = (None, s1) \<Longrightarrow> Execute fs (pre @ post) s = Execute fs post s1"
  by (induction pre arbitrary: s) (auto split: prod.splits option.splits)

lemma Execute_all_succeed:
  assumes "\<forall>i<length cs.
             fst (ExecuteUsing (cs ! i) fs
                    (fold (\<lambda>c t. snd (ExecuteUsing c fs t)) (take i cs) s)) = None"
  shows "Execute fs cs s = (None, fold (\<lambda>c t. snd (ExecuteUsing c fs t)) cs s)"
  using assms
proof (induction cs arbitrary: s)
  case Nil
  show ?case by simp
next
  case (Cons c cs)
  from Cons.prems have first: "fst (ExecuteUsing c fs s) = None"
    by auto
  have rest: "\<forall>i<length cs.
             fst (ExecuteUsing (cs ! i) fs
                    (fold (\<lambda>c t. snd (ExecuteUsing c fs t)) (take i cs)
                       (snd (ExecuteUsing c fs s)))) = None"
  proof (intro allI impI)
    fix i
    assume "i < length cs"
    then have "Suc i < length (c # cs)" by simp
    with Cons.prems
    have "fst (ExecuteUsing ((c # cs) ! Suc i) fs
                 (fold (\<lambda>c t. snd (ExecuteUsing c fs t)) (take (Suc i) (c # cs)) s)) = None"
      by blast
    then show "fst (ExecuteUsing (cs ! i) fs
                    (fold (\<lambda>c t. snd (ExecuteUsing c fs t)) (take i cs)
                       (snd (ExecuteUsing c fs s)))) = None"
      by simp
  qed
  from first obtain s' where step: "ExecuteUsing c fs s = (None, s')"
    by (cases "ExecuteUsing c fs s") simp
  with Cons.IH[OF rest] show ?case
    by simp
qed

text \<open>
  Claim C8: a batch of changes is applied in the order of the sequence and stops at
  the first change that fails, returning its error; the changes before it stay
  applied and no change after it is executed.

  The prefix \<open>pre\<close> is any sequence of changes each of which succeeds when it is
  executed, by \<open>ExecuteUsing\<close>, in the state that the changes before it have left;
  \<open>chg\<close> fails in the state after all of them.  Then the prefix alone is replayed
  to its end, and the batch with \<open>chg\<close> and any \<open>post\<close> after it returns the
  error of \<open>chg\<close> in the state \<open>chg\<close> left, which does not depend on \<open>post\<close>.
\<close>

theorem Execute_stops_at_first_failure:
  assumes "\<forall>i<length pre.
             fst (ExecuteUsing (pre ! i) fs
                    (fold (\<lambda>c t. snd (ExecuteUsing c fs t)) (take i pre) s)) = None"
    and "ExecuteUsing chg fs (fold (\<lambda>c t. snd (ExecuteUsing c fs t)) pre s) = (Some err, s2)"
  shows "Execute fs pre s = (None, fold (\<lambda>c t. snd (ExecuteUsing c fs t)) pre s)
       \<and> Execute fs (pre @ chg # post) s = (Some err, s2)"
proof -
  from assms(1)
  have ok: "Execute fs pre s = (None, fold (\<lambda>c t. snd (ExecuteUsing c fs t)) pre s)"
    by (rule Execute_all_succeed)
  then have "Execute fs (pre @ chg # post) s
           = Execute fs (chg # post) (fold (\<lambda>c t. snd (ExecuteUsing c fs t)) pre s)"
    by (rule Execute_append)
  with assms(2) ok show ?thesis
    by simp
qed

theorem Execute_stops_at_first_failure_witness:
  "Execute VirtualBackend [fsCreateFile ''x'' ''1'', fsCreateFile ''v'' ''3'', fsRename ''x'' ''y'']
     NewVirtualFileSystem
   = (None,
      fold (\<lambda>c t. snd (ExecuteUsing c VirtualBackend t))
        [fsCreateFile ''x'' ''1'', fsCreateFile ''v'' ''3'', fsRename ''x'' ''y'']
        NewVirtualFileSystem)
   \<and> Execute VirtualBackend
       ([fsCreateFile ''x'' ''1'', fsCreateFile ''v'' ''3'', fsRename ''x'' ''y'']
        @ fsRemove ''z'' # [fsCreateFile ''w'' ''2''])
       NewVirtualFileSystem
     = (Some (Errorf ''File does not exist: z''),
        fold (\<lambda>c t. snd (ExecuteUsing c VirtualBackend t))
          [fsCreateFile ''x'' ''1'', fsCreateFile ''v'' ''3'', fsRename ''x'' ''y'']
          NewVirtualFileSystem)
   \<and> files (fold (\<lambda>c t. snd (ExecuteUsing c VirtualBackend t))
          [fsCreateFile ''x'' ''1'', fsCreateFile ''v'' ''3'', fsRename ''x'' ''y'']
          NewVirtualFileSystem) ''y'' = Some ''1''
   \<and> files (fold (\<lambda>c t. snd (ExecuteUsing c VirtualBackend t))
          [fsCreateFile ''x'' ''1'', fsCreateFile ''v'' ''3'', fsRename ''x'' ''y'']
          NewVirtualFileSystem) ''w'' = None"
proof -
  let ?pre = "[fsCreateFile ''x'' ''1'', fsCreateFile ''v'' ''3'', fsRename ''x'' ''y'']"
  let ?step = "\<lambda>c t. snd (ExecuteUsing c VirtualBackend t)"
  have a: "\<forall>i<length ?pre.
             fst (ExecuteUsing (?pre ! i) VirtualBackend
                    (fold ?step (take i ?pre) NewVirtualFileSystem)) = None"
    by (auto simp: less_Suc_eq VirtualBackend_def VirtualFileSystem_CreateFile_def
        VirtualFileSystem_Rename_def NewVirtualFileSystem_def)
  have b: "ExecuteUsing (fsRemove ''z'') VirtualBackend (fold ?step ?pre NewVirtualFileSystem)
             = (Some (Errorf ''File does not exist: z''), fold ?step ?pre NewVirtualFileSystem)"
    by (simp add: VirtualBackend_def VirtualFileSystem_CreateFile_def
        VirtualFileSystem_Rename_def VirtualFileSystem_Remove_def NewVirtualFileSystem_def)
  have c: "files (fold ?step ?pre NewVirtualFileSystem) ''y'' = Some ''1''"
    and d: "files (fold ?step ?pre NewVirtualFileSystem) ''w'' = None"
    by (simp_all add: VirtualBackend_def VirtualFileSystem_CreateFile_def
        VirtualFileSystem_Rename_def NewVirtualFileSystem_def)
  from Execute_stops_at_first_failure [OF a b, of "[fsCreateFile ''w'' ''2'']"] c d
  show ?thesis
    by (intro conjI) (simp_all only: simp_thms)
qed

subsection \<open>The replaced range\<close>

lemma rangeStep_fst: "fst (rangeStep m t)"
  by (cases t; cases m) (auto simp: rangeStep_def)

lemma rangeStep_snd:
  "snd (rangeStep m (sp, ep)) =
     (case importSpan m of
        None \<Rightarrow> (sp, ep)
      | Some (p, e) \<Rightarrow> (if sp = 0 then p else sp, e))"
  by (cases m) (auto simp: rangeStep_def)

lemma scan_started:
  "sp \<noteq> 0 \<Longrightarrow>
   fold (\<lambda>m t. snd (rangeStep m t)) ns (sp, ep) =
     (sp, last (ep # map snd (List.map_filter importSpan ns)))"
proof (induction ns arbitrary: ep)
  case Nil
  then show ?case by (simp add: List.map_filter_def)
next
  case (Cons n ns)
  show ?case
  proof (cases "importSpan n")
    case None
    with Cons show ?thesis
      by (simp add: rangeStep_snd map_filter_Cons)
  next
    case (Some pe)
    obtain p e where pe: "pe = (p, e)" by (cases pe)
    with Some Cons show ?thesis
      by (simp add: rangeStep_snd map_filter_Cons)
  qed
qed

lemma scan_from_start:
  "List.map_filter importSpan ns = (p, e) # rest \<Longrightarrow> p \<noteq> 0 \<Longrightarrow>
   fold (\<lambda>m t. snd (rangeStep m t)) ns (0, 0) = (p, snd (last ((p, e) # rest)))"
proof (induction ns)
  case Nil
  then show ?case by (simp add: List.map_filter_def)
next
  case (Cons n ns)
  show ?case
  proof (cases "importSpan n")
    case None
    with Cons show ?thesis
      by (simp add: rangeStep_snd map_filter_Cons)
  next
    case (Some pe)
    with Cons.prems have pe: "pe = (p, e)" and rest: "List.map_filter importSpan ns = rest"
      by (simp_all add: map_filter_Cons)
    from Some pe Cons.prems(2) rest show ?thesis
      by (simp add: rangeStep_snd scan_started last_map)
  qed
qed

lemma findImportStatementRange_spans:
  assumes "importDecls f = (p, e) # rest" and "p \<noteq> 0"
  shows "findImportStatementRange positionOffset f =
           OffsetLength (positionOffset p)
             (positionOffset (snd (last ((p, e) # rest))) - positionOffset p + 1)"
proof -
  have "Inspect rangeStep (fileNode f) (0, 0) = (p, snd (last ((p, e) # rest)))"
    using assms
    by (simp add: Inspect_visits_all[of rangeStep, OF rangeStep_fst] scan_from_start
        importDecls_def)
  then show ?thesis
    unfolding findImportStatementRange_def rangeStep_def[symmetric]
    by (simp add: Let_def)
qed

text \<open>
  The test the code makes is on the list \<open>Imports\<close> of import specifications, not
  on the import declarations in the tree.  The two part ways on an empty declaration:
  \<^verbatim>\<open>import ()\<close> is an import declaration, from position 12 to 21 here, and adds
  nothing to \<open>Imports\<close>.  Claim C9 as it is worded asks for the span of that
  declaration, offset 11 and length 10; the code stages an insertion of length zero
  at offset 11, followed by a newline.
\<close>

theorem fixImports_range_empty_import_declaration:
  "importDecls file_empty_import_decl = [(12, 21)]
   \<and> Imports file_empty_import_decl = []
   \<and> map_sum id editSet
        (fixImports [] file_empty_import_decl (transformation_of (Some file_empty_import_decl)))
       = Inr [(''p.go'', OffsetLength 11 0, ''import (\<newline>)\<newline>\<newline>'')]
   \<and> OffsetLength 11 0 \<noteq> OffsetLength (int 12 - 1) ((int 21 - 1) - (int 12 - 1) + 1)"
  by code_simp

text \<open>
  Claim C9, amended: if the file's list of import specifications is not empty (its
  import declarations then stand in the tree, the first at a valid position), the
  staged range starts at the offset of the first import declaration and its length
  is the end offset of the last one minus that start plus one, so that all import
  declarations fall into one replaced span, and nothing is appended; if the list of
  import specifications is empty, also when the file holds an empty import
  declaration, the range is an insertion of length zero at the offset of the first
  top-level declaration and the replacement ends with an added newline.
\<close>

theorem fixImports_range:
  "(Imports f \<noteq> [] \<and> importDecls f = (p, e) # rest \<and> p \<noteq> 0 \<longrightarrow>
      fixImports imports f r =
        Inr (r\<lparr>editSet := editSet r @
               [(filename r,
                 OffsetLength (PositionOffset r p)
                   (PositionOffset r (snd (last ((p, e) # rest))) - PositionOffset r p + 1),
                 constructNewImportStatement imports)]\<rparr>))
   \<and> (Imports f = [] \<and> Decls f = decl # decls \<longrightarrow>
      fixImports imports f r =
        Inr (r\<lparr>editSet := editSet r @
               [(filename r,
                 OffsetLength (PositionOffset r (Pos decl)) 0,
                 constructNewImportStatement imports @ ''\<newline>'')]\<rparr>))"
proof (intro conjI impI)
  assume a: "Imports f \<noteq> [] \<and> importDecls f = (p, e) # rest \<and> p \<noteq> 0"
  then have "findReplacementRange (PositionOffset r) f =
      Inr (OffsetLength (PositionOffset r p)
             (PositionOffset r (snd (last ((p, e) # rest))) - PositionOffset r p + 1), '''')"
    by (simp add: findReplacementRange_def findImportStatementRange_spans)
  then show "fixImports imports f r =
        Inr (r\<lparr>editSet := editSet r @
               [(filename r,
                 OffsetLength (PositionOffset r p)
                   (PositionOffset r (snd (last ((p, e) # rest))) - PositionOffset r p + 1),
                 constructNewImportStatement imports)]\<rparr>)"
    by (simp add: fixImports_def)
next
  assume "Imports f = [] \<and> Decls f = decl # decls"
  then have "findReplacementRange (PositionOffset r) f =
      Inr (OffsetLength (PositionOffset r (Pos decl)) 0, ''\<newline>'')"
    by (simp add: findReplacementRange_def findFirstDeclOffset_def)
  then show "fixImports imports f r =
        Inr (r\<lparr>editSet := editSet r @
               [(filename r,
                 OffsetLength (PositionOffset r (Pos decl)) 0,
                 constructNewImportStatement imports @ ''\<newline>'')]\<rparr>)"
    by (simp add: fixImports_def)
qed

theorem fixImports_range_witness:
  "Imports file_two_import_blocks \<noteq> []
   \<and> importDecls file_two_import_blocks = [(12, 24), (25, 36)]
   \<and> fixImports [] file_two_import_blocks (transformation_of (Some file_two_import_blocks))
       = Inr ((transformation_of (Some file_two_import_blocks))
               \<lparr>editSet := [(''p.go'', OffsetLength 11 25, ''import (\<newline>)\<newline>'')]\<rparr>)
   \<and> Imports file_no_imports = []
   \<and> Decls file_no_imports
       = [GenDecl VAR 12 21 [OtherNode 16 [IdentNode (Ident 16 ''x''), IdentNode (Ident 18 ''int'')]]]
   \<and> fixImports [] file_no_imports (transformation_of (Some file_no_imports))
       = Inr ((transformation_of (Some file_no_imports))
               \<lparr>editSet := [(''p.go'', OffsetLength 11 0, ''import (\<newline>)\<newline>\<newline>'')]\<rparr>)"
proof -
  have a: "Imports file_two_import_blocks \<noteq> []"
    by (simp add: file_two_import_blocks_def)
  have b: "importDecls file_two_import_blocks = (12, 24) # [(25, 36)]"
    by code_simp
  have c: "Imports file_no_imports = []"
    by (simp add: file_no_imports_def)
  have d: "Decls file_no_imports
       = GenDecl VAR 12 21 [OtherNode 16 [IdentNode (Ident 16 ''x''), IdentNode (Ident 18 ''int'')]] # []"
    by (simp add: file_no_imports_def)
  have e: "constructNewImportStatement [] = ''import (\<newline>)\<newline>''"
    by code_simp
  from a b
    fixImports_range [of file_two_import_blocks 12 24 "[(25, 36)]" "[]"
      "transformation_of (Some file_two_import_blocks)"]
  have 1: "fixImports [] file_two_import_blocks (transformation_of (Some file_two_import_blocks))
       = Inr ((transformation_of (Some file_two_import_blocks))
               \<lparr>editSet := [(''p.go'', OffsetLength 11 25, ''import (\<newline>)\<newline>'')]\<rparr>)"
    by (simp add: e transformation_of_def)
  from c d
    fixImports_range [of file_no_imports _ _ _ "[]"
      "transformation_of (Some file_no_imports)"
      "GenDecl VAR 12 21 [OtherNode 16 [IdentNode (Ident 16 ''x''), IdentNode (Ident 18 ''int'')]]"
      "[]"]
  have 2: "fixImports [] file_no_imports (transformation_of (Some file_no_imports))
       = Inr ((transformation_of (Some file_no_imports))
               \<lparr>editSet := [(''p.go'', OffsetLength 11 0, ''import (\<newline>)\<newline>\<newline>'')]\<rparr>)"
    by (simp add: e transformation_of_def)
  from a b c d 1 2 show ?thesis by simp
qed

subsection \<open>A file without declarations\<close>

lemma Run_fixImports:
  "file' r = Some f \<Longrightarrow> \<exists>imports lg. Run r = fixImports imports f (r\<lparr>log := lg\<rparr>)"
  by (auto simp: Run_def Let_def split: prod.splits)

text \<open>
  Claim C10: when the file has no import declaration, the range computation reads
  the first element of the declaration list without a test; so \<open>Run\<close> returns only
  for files with a top-level declaration, and on a file with neither imports nor
  declarations the computation of the insertion point indexes out of range.
\<close>

theorem Run_total_iff_first_decl:
  assumes "file' r = Some f" and "Imports f = []"
  shows "(Decls f = [] \<longrightarrow>
            findFirstDeclOffset (PositionOffset r) f
              = Inl (Panic ''runtime error: index out of range'')
          \<and> findReplacementRange (PositionOffset r) f
              = Inl (Panic ''runtime error: index out of range'')
          \<and> Run r = Inl (Panic ''runtime error: index out of range''))
       \<and> ((\<exists>r'. Run r = Inr r') \<longleftrightarrow> Decls f \<noteq> [])"
proof -
  from assms(1) obtain imps lg where run: "Run r = fixImports imps f (r\<lparr>log := lg\<rparr>)"
    using Run_fixImports by blast
  show ?thesis
  proof (cases "Decls f")
    case Nil
    with assms(2) have "findFirstDeclOffset (PositionOffset r) f
              = Inl (Panic ''runtime error: index out of range'')"
      and "findReplacementRange (PositionOffset r) f
              = Inl (Panic ''runtime error: index out of range'')"
      by (simp_all add: findReplacementRange_def findFirstDeclOffset_def)
    with run Nil show ?thesis
      by (simp add: fixImports_def)
  next
    case (Cons decl decls)
    with assms(2) have "findReplacementRange (PositionOffset r) f =
      Inr (OffsetLength (PositionOffset r (Pos decl)) 0, ''\<newline>'')"
      by (simp add: findReplacementRange_def findFirstDeclOffset_def)
    with run Cons show ?thesis
      by (simp add: fixImports_def)
  qed
qed

theorem Run_total_iff_first_decl_witness:
  "file' (transformation_of (Some file_package_clause_only)) = Some file_package_clause_only
   \<and> Imports file_package_clause_only = [] \<and> Decls file_package_clause_only = []
   \<and> Run (transformation_of (Some file_package_clause_only))
       = Inl (Panic ''runtime error: index out of range'')
   \<and> file' (transformation_of (Some file_no_imports)) = Some file_no_imports
   \<and> Imports file_no_imports = [] \<and> Decls file_no_imports \<noteq> []
   \<and> (\<exists>r'. Run (transformation_of (Some file_no_imports)) = Inr r')"
proof -
  have a: "file' (transformation_of (Some file_package_clause_only)) = Some file_package_clause_only"
    and b: "Imports file_package_clause_only = []"
    and c: "Decls file_package_clause_only = []"
    by (simp_all add: transformation_of_def file_package_clause_only_def)
  have d: "file' (transformation_of (Some file_no_imports)) = Some file_no_imports"
    and e: "Imports file_no_imports = []"
    and g: "Decls file_no_imports \<noteq> []"
    by (simp_all add: transformation_of_def file_no_imports_def)
  from Run_total_iff_first_decl [OF a b] c
  have 1: "Run (transformation_of (Some file_package_clause_only))
       = Inl (Panic ''runtime error: index out of range'')"
    by simp
  from Run_total_iff_first_decl [OF d e] g
  have 2: "\<exists>r'. Run (transformation_of (Some file_no_imports)) = Inr r'"
    by simp
  from a b c d e g 1 2 show ?thesis
    by simp
qed

end
